theory Spec2Isabelle
  imports Main "HOL-Library.Word" "HOL-Library.Multiset"
begin

section \<open>Data model shared by both variants\<close>

text \<open>
  The repository holds two programs with the same HTTP surface: \<open>main.go\<close> keeps the
  todos in a PostgreSQL table (the relational variant), the second file keeps them in a
  slice that is loaded from and written to \<open>todos.json\<close> (the file-backed variant).
  Go's \<open>int\<close> is taken at its 64-bit width: \<open>+\<close> wraps, comparisons are signed.
\<close>

type_synonym go_int = "64 word"

record Todo =
  ID :: go_int
  Title :: string
  Done :: bool

text \<open>
  A request as the handlers see it: \<open>r.Method\<close>, \<open>r.URL.Path\<close> and the outcome of
  \<open>json.NewDecoder(r.Body).Decode(&t)\<close> on the body, which is \<open>None\<close> when Decode
  returns an error and otherwise the struct it filled (absent fields keep their zero
  values).
\<close>

record request =
  Method :: string
  Path :: string
  Body :: "Todo option"

text \<open>
  What is written to the \<open>http.ResponseWriter\<close>: the status code (200 when a handler
  only writes a body) and the body; the headers are left out. A nil slice is encoded by
  \<open>encoding/json\<close> as \<open>null\<close>, a non-nil one as an array. \<open>http.Error\<close>
  writes the message as plain text.
\<close>

datatype payload = NoBody | Text string | JsonTodo Todo | JsonTodos "Todo list" | JsonNull

record response =
  status :: nat
  payload :: payload

definition http_Error :: "string \<Rightarrow> nat \<Rightarrow> response" where
  "http_Error msg code = \<lparr>status = code, payload = Text msg\<rparr>"

definition http_NotFound :: response where
  "http_NotFound = http_Error ''404 page not found'' 404"

definition Encode_todo :: "Todo \<Rightarrow> response" where
  "Encode_todo t = \<lparr>status = 200, payload = JsonTodo t\<rparr>"

text \<open>A Go slice of todos: \<open>None\<close> is the nil slice.\<close>

type_synonym todo_slice = "Todo list option"

definition elems :: "todo_slice \<Rightarrow> Todo list" where
  "elems sl = (case sl of None \<Rightarrow> [] | Some ts \<Rightarrow> ts)"

definition append_slice :: "todo_slice \<Rightarrow> Todo \<Rightarrow> todo_slice" where
  "append_slice sl t = Some (elems sl @ [t])"

definition Encode_todos :: "todo_slice \<Rightarrow> response" where
  "Encode_todos sl =
     \<lparr>status = 200, payload = (case sl of None \<Rightarrow> JsonNull | Some ts \<Rightarrow> JsonTodos ts)\<rparr>"

subsection \<open>The library functions on strings that the handlers call\<close>

definition HasPrefix :: "string \<Rightarrow> string \<Rightarrow> bool" where
  "HasPrefix s p = (length p \<le> length s \<and> take (length p) s = p)"

definition HasSuffix :: "string \<Rightarrow> string \<Rightarrow> bool" where
  "HasSuffix s p = (length p \<le> length s \<and> drop (length s - length p) s = p)"

definition TrimPrefix :: "string \<Rightarrow> string \<Rightarrow> string" where
  "TrimPrefix s p = (if HasPrefix s p then drop (length p) s else s)"

definition TrimSuffix :: "string \<Rightarrow> string \<Rightarrow> string" where
  "TrimSuffix s p = (if HasSuffix s p then take (length s - length p) s else s)"

definition is_digit :: "char \<Rightarrow> bool" where
  "is_digit c = (48 \<le> (of_char c :: int) \<and> (of_char c :: int) \<le> 57)"

fun digits_val :: "string \<Rightarrow> int \<Rightarrow> int option" where
  "digits_val [] n = Some n"
| "digits_val (c # cs) n =
     (if is_digit c then digits_val cs (n * 10 + (of_char c - 48)) else None)"

text \<open>
  \<open>strconv.Atoi\<close>: an optional sign, then at least one decimal digit and nothing else;
  a value outside the range of \<open>int\<close> is an error as well. \<open>None\<close> is the error.
\<close>

definition Atoi :: "string \<Rightarrow> go_int option" where
  "Atoi s =
     (case s of
        [] \<Rightarrow> None
      | c # cs \<Rightarrow>
          (let ds = (if c = CHR ''-'' \<or> c = CHR ''+'' then cs else s) in
           if ds = [] then None
           else (case digits_val ds 0 of
                   None \<Rightarrow> None
                 | Some n \<Rightarrow>
                     if c = CHR ''-''
                     then (if n \<le> 2 ^ 63 then Some (word_of_int (- n)) else None)
                     else (if n < 2 ^ 63 then Some (word_of_int n) else None))))"

text \<open>The index of the first element with the given id: where a \<open>range\<close> loop with
  \<open>if t.ID == id { ...; return }\<close> stops.\<close>

fun findID :: "go_int \<Rightarrow> Todo list \<Rightarrow> nat option" where
  "findID i [] = None"
| "findID i (t # ts) = (if ID t = i then Some 0 else map_option Suc (findID i ts))"

section \<open>The file-backed variant\<close>

text \<open>The package variables \<open>todos\<close> and \<open>nextID\<close>.\<close>

record fstate =
  todos :: todo_slice
  nextID :: go_int

definition init_fstate :: fstate where
  "init_fstate = \<lparr>todos = Some [], nextID = 1\<rparr>"

text \<open>
  What \<open>os.ReadFile\<close> followed by \<open>json.Unmarshal(file, &todos)\<close> finds: no file, a
  file that cannot be read, a file that does not decode into a slice of todos, the JSON
  value \<open>null\<close> (which sets the slice to nil), or an array of records.
\<close>

datatype stored = Missing | Unreadable | Malformed | Null | Records "Todo list"

datatype fatal = ErrorReadingFile | ErrorParsingFile

definition advance :: "Todo \<Rightarrow> go_int \<Rightarrow> go_int" where
  "advance t n = (if sint n \<le> sint (ID t) then ID t + 1 else n)"

definition loadTodosFromFile :: "stored \<Rightarrow> fstate \<Rightarrow> fatal + fstate" where
  "loadTodosFromFile f s =
     (case f of
        Missing \<Rightarrow> Inr s
      | Unreadable \<Rightarrow> Inl ErrorReadingFile
      | Malformed \<Rightarrow> Inl ErrorParsingFile
      | Null \<Rightarrow> Inr (s\<lparr>todos := None\<rparr>)
      | Records ts \<Rightarrow> Inr (s\<lparr>todos := Some ts, nextID := fold advance ts (nextID s)\<rparr>))"

text \<open>
  \<open>saveTodosToFile\<close> writes the serialised slice to the file and logs a failure; it
  changes neither \<open>todos\<close> nor \<open>nextID\<close>. The contents of the file are not part of
  the state.
\<close>

definition saveTodosToFile :: "fstate \<Rightarrow> fstate" where
  "saveTodosToFile s = s"

definition getTodos_file :: "fstate \<Rightarrow> response" where
  "getTodos_file s = Encode_todos (todos s)"

definition getTodo :: "fstate \<Rightarrow> request \<Rightarrow> response" where
  "getTodo s r =
     (let idStr = TrimPrefix (Path r) ''/todos/'' in
      case Atoi idStr of
        None \<Rightarrow> http_Error ''Invalid ID'' 400
      | Some i \<Rightarrow>
          (case find (\<lambda>t. ID t = i) (elems (todos s)) of
             Some t \<Rightarrow> Encode_todo t
           | None \<Rightarrow> http_NotFound))"

definition createTodo_file :: "fstate \<Rightarrow> request \<Rightarrow> fstate \<times> response" where
  "createTodo_file s r =
     (case Body r of
        None \<Rightarrow> (s, http_Error ''Bad Request'' 400)
      | Some t0 \<Rightarrow>
          (let t = t0\<lparr>ID := nextID s\<rparr>;
               s1 = s\<lparr>nextID := nextID s + 1\<rparr>;
               s2 = s1\<lparr>todos := append_slice (todos s1) t\<rparr>
           in (saveTodosToFile s2, \<lparr>status = 201, payload = JsonTodo t\<rparr>)))"

definition updateTodo_file :: "fstate \<Rightarrow> request \<Rightarrow> fstate \<times> response" where
  "updateTodo_file s r =
     (let idStr = TrimPrefix (Path r) ''/todos/'' in
      case Atoi idStr of
        None \<Rightarrow> (s, http_Error ''Invalid ID'' 400)
      | Some i \<Rightarrow>
          (case Body r of
             None \<Rightarrow> (s, http_Error ''Bad Request'' 400)
           | Some u \<Rightarrow>
               (case findID i (elems (todos s)) of
                  Some k \<Rightarrow>
                    (let updated = u\<lparr>ID := i\<rparr>;
                         s1 = s\<lparr>todos := Some ((elems (todos s))[k := updated])\<rparr>
                     in (saveTodosToFile s1, Encode_todo updated))
                | None \<Rightarrow> (s, http_NotFound))))"

definition markAsDone_file :: "fstate \<Rightarrow> request \<Rightarrow> fstate \<times> response" where
  "markAsDone_file s r =
     (let idStr = TrimSuffix (TrimPrefix (Path r) ''/todos/'') ''/done'' in
      case Atoi idStr of
        None \<Rightarrow> (s, http_Error ''Invalid ID'' 400)
      | Some i \<Rightarrow>
          (case findID i (elems (todos s)) of
             Some k \<Rightarrow>
               (let ts = (elems (todos s))[k := (elems (todos s) ! k)\<lparr>Done := True\<rparr>];
                    s1 = s\<lparr>todos := Some ts\<rparr>
                in (saveTodosToFile s1, Encode_todo (ts ! k)))
           | None \<Rightarrow> (s, http_NotFound)))"

definition deleteTodo_file :: "fstate \<Rightarrow> request \<Rightarrow> fstate \<times> response" where
  "deleteTodo_file s r =
     (let idStr = TrimPrefix (Path r) ''/todos/'' in
      case Atoi idStr of
        None \<Rightarrow> (s, http_Error ''Invalid ID'' 400)
      | Some i \<Rightarrow>
          (case findID i (elems (todos s)) of
             Some k \<Rightarrow>
               (let s1 = s\<lparr>todos := Some (take k (elems (todos s)) @ drop (Suc k) (elems (todos s)))\<rparr>
                in (saveTodosToFile s1, \<lparr>status = 204, payload = NoBody\<rparr>))
           | None \<Rightarrow> (s, http_NotFound)))"

definition router_file :: "fstate \<Rightarrow> request \<Rightarrow> fstate \<times> response" where
  "router_file s r =
     (if Method r = ''GET'' \<and> Path r = ''/todos'' then (s, getTodos_file s)
      else if Method r = ''POST'' \<and> Path r = ''/todos'' then createTodo_file s r
      else if Method r = ''GET'' \<and> HasPrefix (Path r) ''/todos/'' then (s, getTodo s r)
      else if Method r = ''PUT'' \<and> HasPrefix (Path r) ''/todos/'' then updateTodo_file s r
      else if Method r = ''DELETE'' \<and> HasPrefix (Path r) ''/todos/'' then deleteTodo_file s r
      else if Method r = ''PATCH'' \<and> HasSuffix (Path r) ''/done'' then markAsDone_file s r
      else (s, http_NotFound))"

text \<open>\<open>main\<close>: load the file into the initial package variables; a fatal error ends the
  process before it serves a request.\<close>

definition main_file :: "stored \<Rightarrow> fatal + fstate" where
  "main_file f = loadTodosFromFile f init_fstate"

text \<open>Serving requests one after the other, collecting the responses. (Requests
  that the server runs at the same time race on the package variables; the model has
  no such runs.)\<close>

fun serve_file :: "fstate \<Rightarrow> request list \<Rightarrow> fstate \<times> response list" where
  "serve_file s [] = (s, [])"
| "serve_file s (r # rs) =
     (let (s1, a) = router_file s r; (s2, as) = serve_file s1 rs in (s2, a # as))"

section \<open>The relational variant\<close>

text \<open>
  The database is not part of the repository. Its table \<open>todos\<close> (\<open>id SERIAL PRIMARY
  KEY, title TEXT NOT NULL, done BOOLEAN NOT NULL DEFAULT FALSE\<close>) is modelled as the
  list of its rows together with the next value of the sequence behind \<open>id\<close>, and each
  of the six statements the handlers send as a function on it. A round trip can fail
  as a whole (no connection, a rejected statement): each handler takes, for each round
  trip it makes, a flag that says whether the round trip goes through.
\<close>

record db =
  table :: "Todo list"
  serial :: go_int

definition sql_select_all :: "db \<Rightarrow> Todo list" where
  "sql_select_all d = sort_key (\<lambda>t. sint (ID t)) (table d)"

definition sql_select_by_id :: "db \<Rightarrow> go_int \<Rightarrow> Todo option" where
  "sql_select_by_id d i = find (\<lambda>t. ID t = i) (table d)"

text \<open>The insert takes the id from the sequence; a row with that id already in the
  table violates the primary key, and the statement fails with the value used up.\<close>

definition sql_insert :: "db \<Rightarrow> string \<Rightarrow> bool \<Rightarrow> db \<times> go_int option" where
  "sql_insert d ti dn =
     (let i = serial d; d1 = d\<lparr>serial := serial d + 1\<rparr> in
      if i \<in> set (map ID (table d)) then (d1, None)
      else (d1\<lparr>table := table d @ [\<lparr>ID = i, Title = ti, Done = dn\<rparr>]\<rparr>, Some i))"

definition sql_update :: "db \<Rightarrow> string \<Rightarrow> bool \<Rightarrow> go_int \<Rightarrow> db" where
  "sql_update d ti dn i =
     d\<lparr>table := map (\<lambda>t. if ID t = i then t\<lparr>Title := ti, Done := dn\<rparr> else t) (table d)\<rparr>"

definition sql_set_done :: "db \<Rightarrow> go_int \<Rightarrow> db" where
  "sql_set_done d i =
     d\<lparr>table := map (\<lambda>t. if ID t = i then t\<lparr>Done := True\<rparr> else t) (table d)\<rparr>"

definition sql_delete :: "db \<Rightarrow> go_int \<Rightarrow> db" where
  "sql_delete d i = d\<lparr>table := filter (\<lambda>t. ID t \<noteq> i) (table d)\<rparr>"

definition getTodos_db :: "bool \<Rightarrow> db \<Rightarrow> response" where
  "getTodos_db up d =
     (if \<not> up then http_Error ''Failed to fetch todos'' 500
      else Encode_todos (fold (\<lambda>t sl. append_slice sl t) (sql_select_all d) None))"

definition getTodoById :: "bool \<Rightarrow> db \<Rightarrow> request \<Rightarrow> response" where
  "getTodoById up d r =
     (let idStr = TrimPrefix (Path r) ''/todos/'' in
      case Atoi idStr of
        None \<Rightarrow> http_Error ''Invalid ID'' 400
      | Some i \<Rightarrow>
          (case (if up then sql_select_by_id d i else None) of
             None \<Rightarrow> http_NotFound
           | Some t \<Rightarrow> Encode_todo t))"

definition createTodo_db :: "bool \<Rightarrow> db \<Rightarrow> request \<Rightarrow> db \<times> response" where
  "createTodo_db up d r =
     (case Body r of
        None \<Rightarrow> (d, http_Error ''Bad Request'' 400)
      | Some t \<Rightarrow>
          if \<not> up then (d, http_Error ''Failed to insert'' 500)
          else (case sql_insert d (Title t) (Done t) of
                  (d1, None) \<Rightarrow> (d1, http_Error ''Failed to insert'' 500)
                | (d1, Some i) \<Rightarrow> (d1, \<lparr>status = 201, payload = JsonTodo (t\<lparr>ID := i\<rparr>)\<rparr>)))"

definition updateTodo_db :: "bool \<Rightarrow> db \<Rightarrow> request \<Rightarrow> db \<times> response" where
  "updateTodo_db up d r =
     (let idStr = TrimPrefix (Path r) ''/todos/'' in
      case Atoi idStr of
        None \<Rightarrow> (d, http_Error ''Invalid ID'' 400)
      | Some i \<Rightarrow>
          (case Body r of
             None \<Rightarrow> (d, http_Error ''Bad Request'' 400)
           | Some u \<Rightarrow>
               if \<not> up then (d, http_Error ''Update failed'' 500)
               else (sql_update d (Title u) (Done u) i, Encode_todo (u\<lparr>ID := i\<rparr>))))"

definition markAsDone_db :: "bool \<Rightarrow> bool \<Rightarrow> db \<Rightarrow> request \<Rightarrow> db \<times> response" where
  "markAsDone_db up up2 d r =
     (let idStr = TrimSuffix (TrimPrefix (Path r) ''/todos/'') ''/done'' in
      case Atoi idStr of
        None \<Rightarrow> (d, http_Error ''Invalid ID'' 400)
      | Some i \<Rightarrow>
          if \<not> up then (d, http_Error ''Failed to mark done'' 500)
          else (let d1 = sql_set_done d i in
                case (if up2 then sql_select_by_id d1 i else None) of
                  None \<Rightarrow> (d1, http_NotFound)
                | Some t \<Rightarrow> (d1, Encode_todo t)))"

definition deleteTodo_db :: "bool \<Rightarrow> db \<Rightarrow> request \<Rightarrow> db \<times> response" where
  "deleteTodo_db up d r =
     (let idStr = TrimPrefix (Path r) ''/todos/'' in
      case Atoi idStr of
        None \<Rightarrow> (d, http_Error ''Invalid ID'' 400)
      | Some i \<Rightarrow>
          if \<not> up then (d, http_Error ''Delete failed'' 500)
          else (sql_delete d i, \<lparr>status = 204, payload = NoBody\<rparr>))"

definition router_db :: "bool \<Rightarrow> bool \<Rightarrow> db \<Rightarrow> request \<Rightarrow> db \<times> response" where
  "router_db up up2 d r =
     (if Method r = ''GET'' \<and> Path r = ''/todos'' then (d, getTodos_db up d)
      else if Method r = ''POST'' \<and> Path r = ''/todos'' then createTodo_db up d r
      else if Method r = ''GET'' \<and> HasPrefix (Path r) ''/todos/'' then (d, getTodoById up d r)
      else if Method r = ''PUT'' \<and> HasPrefix (Path r) ''/todos/'' then updateTodo_db up d r
      else if Method r = ''DELETE'' \<and> HasPrefix (Path r) ''/todos/'' then deleteTodo_db up d r
      else if Method r = ''PATCH'' \<and> HasSuffix (Path r) ''/done'' then markAsDone_db up up2 d r
      else (d, http_NotFound))"

section \<open>The dispatch table of the specification\<close>

text \<open>
  The table as the specification words it, for comparison with the two routers:
  \<open>GET /todos\<close>, \<open>POST /todos\<close>, \<open>GET /todos/{id}\<close>, \<open>PUT /todos/{id}\<close>,
  \<open>PATCH /todos/{id}/done\<close> and \<open>DELETE /todos/{id}\<close>, where \<open>{id}\<close> stands for the
  rest of the path, whatever it is.
\<close>

definition dispatch_table :: "request \<Rightarrow> bool" where
  "dispatch_table r =
     (Method r = ''GET'' \<and> Path r = ''/todos''
      \<or> Method r = ''POST'' \<and> Path r = ''/todos''
      \<or> Method r = ''GET'' \<and> HasPrefix (Path r) ''/todos/''
      \<or> Method r = ''PUT'' \<and> HasPrefix (Path r) ''/todos/''
      \<or> Method r = ''PATCH'' \<and> HasPrefix (Path r) ''/todos/''
          \<and> HasSuffix (drop 7 (Path r)) ''/done''
      \<or> Method r = ''DELETE'' \<and> HasPrefix (Path r) ''/todos/'')"

section \<open>Notions the properties are stated with\<close>

text \<open>The largest value of a Go \<open>int\<close> (\<open>math.MaxInt64\<close>).\<close>

definition MaxInt64 :: int where
  "MaxInt64 = 9223372036854775807"

text \<open>The counter invariant of the file-backed variant: \<open>nextID\<close> is above every id
  in the dataset.\<close>

definition below_counter :: "fstate \<Rightarrow> bool" where
  "below_counter s = list_all (\<lambda>t. sint (ID t) < sint (nextID s)) (elems (todos s))"

text \<open>Records in strictly ascending order of their ids.\<close>

definition ascending :: "Todo list \<Rightarrow> bool" where
  "ascending ts = sorted_wrt (\<lambda>a b. sint (ID a) < sint (ID b)) ts"

text \<open>The requests that create a record: \<open>POST /todos\<close> with a body that decodes.\<close>

definition is_create :: "request \<Rightarrow> bool" where
  "is_create r = (Method r = ''POST'' \<and> Path r = ''/todos'' \<and> Body r \<noteq> None)"

text \<open>The records a stored file holds.\<close>

definition stored_records :: "stored \<Rightarrow> Todo list" where
  "stored_records f = (case f of Records ts \<Rightarrow> ts | _ \<Rightarrow> [])"

text \<open>The ids handed out in a run: those of the records in the 201 responses.\<close>

fun created :: "response list \<Rightarrow> go_int list" where
  "created [] = []"
| "created (a # as) =
     (case payload a of
        JsonTodo t \<Rightarrow> if status a = 201 then ID t # created as else created as
      | _ \<Rightarrow> created as)"

text \<open>
  The decimal numeral of an \<open>int\<close> (what \<open>strconv.Itoa\<close> returns), as a client
  writes an id into a path. No handler calls it; it serves to show that every id has a
  path that \<open>Atoi\<close> reads back.
\<close>

fun dec :: "nat \<Rightarrow> string" where
  "dec n = (if n < 10 then [''0123456789'' ! n]
            else dec (n div 10) @ [''0123456789'' ! (n mod 10)])"

definition Itoa :: "go_int \<Rightarrow> string" where
  "Itoa i = (if sint i < 0 then CHR ''-'' # dec (nat (- sint i)) else dec (nat (sint i)))"

declare dec.simps [simp del]

section \<open>Facts used throughout\<close>

lemmas string_defs = HasPrefix_def HasSuffix_def TrimPrefix_def TrimSuffix_def Atoi_def is_digit_def

lemmas reply_defs = http_Error_def http_NotFound_def Encode_todo_def Encode_todos_def

lemmas file_eval = main_file_def loadTodosFromFile_def init_fstate_def advance_def
  router_file_def createTodo_file_def getTodos_file_def getTodo_def saveTodosToFile_def
  append_slice_def elems_def Let_def

lemma elems_Some: "elems (Some ts) = ts"
  by (simp add: elems_def)

lemma findID_None: "findID i ts = None \<longleftrightarrow> i \<notin> set (map ID ts)"
  by (induction ts) auto

lemma findID_Some: "findID i ts = Some k \<Longrightarrow> k < length ts \<and> ID (ts ! k) = i"
proof (induction ts arbitrary: k)
  case Nil
  then show ?case by simp
next
  case (Cons t ts)
  then show ?case by (cases "ID t = i") auto
qed


section \<open>Every id has a path\<close>

lemma digits_val_append:
  "digits_val (xs @ ys) a = (case digits_val xs a of None \<Rightarrow> None | Some b \<Rightarrow> digits_val ys b)"
  by (induction xs arbitrary: a) auto

lemma digit_char:
  assumes "d < 10"
  shows "is_digit (''0123456789'' ! d) \<and> (of_char (''0123456789'' ! d) :: int) = 48 + int d
         \<and> ''0123456789'' ! d \<noteq> CHR ''-'' \<and> ''0123456789'' ! d \<noteq> CHR ''+''"
proof -
  from assms have "d = 0 \<or> d = 1 \<or> d = 2 \<or> d = 3 \<or> d = 4 \<or> d = 5 \<or> d = 6
      \<or> d = 7 \<or> d = 8 \<or> d = 9" by arith
  then show ?thesis by (elim disjE) (simp_all add: is_digit_def)
qed

lemma dec_nonempty: "dec n \<noteq> []"
  by (subst dec.simps) simp

lemma digits_val_dec: "digits_val (dec n) 0 = Some (int n)"
proof (induction n rule: dec.induct)
  case (1 n)
  show ?case
  proof (cases "n < 10")
    case True
    with digit_char [of n] show ?thesis by (subst dec.simps) simp
  next
    case False
    then have ih: "digits_val (dec (n div 10)) 0 = Some (int (n div 10))" by (rule "1.IH")
    have d: "n mod 10 < 10" by simp
    have "int (n div 10) * 10 + int (n mod 10) = int n"
      by (simp add: of_nat_div of_nat_mod)
    with False ih digit_char [OF d] show ?thesis
      by (subst dec.simps) (simp add: digits_val_append)
  qed
qed

lemma dec_unsigned: "\<exists>c cs. dec n = c # cs \<and> c \<noteq> CHR ''-'' \<and> c \<noteq> CHR ''+''"
proof (induction n rule: dec.induct)
  case (1 n)
  show ?case
  proof (cases "n < 10")
    case True
    with digit_char [of n] show ?thesis by (subst dec.simps) simp
  next
    case False
    then obtain c cs where "dec (n div 10) = c # cs" "c \<noteq> CHR ''-''" "c \<noteq> CHR ''+''"
      using "1.IH" by blast
    with False show ?thesis by (subst dec.simps) simp
  qed
qed

lemma Atoi_Itoa: "Atoi (Itoa i) = Some i"
proof (cases "sint i < 0")
  case True
  have lo: "- (2 ^ 63) \<le> sint i" using sint_ge [of i] by simp
  let ?n = "nat (- sint i)"
  from True lo have n: "int ?n = - sint i" "int ?n \<le> 2 ^ 63" by simp_all
  from True have "Atoi (Itoa i) = Atoi (CHR ''-'' # dec ?n)" by (simp add: Itoa_def)
  also have "\<dots> = Some (word_of_int (- int ?n))"
    using n(2) by (simp add: Atoi_def dec_nonempty digits_val_dec)
  also have "word_of_int (- int ?n) = i" using n(1) by simp
  finally show ?thesis .
next
  case False
  have hi: "sint i < 2 ^ 63" using sint_lt [of i] by simp
  let ?n = "nat (sint i)"
  from False hi have n: "int ?n = sint i" "int ?n < 2 ^ 63" by simp_all
  obtain c cs where c: "dec ?n = c # cs" "c \<noteq> CHR ''-''" "c \<noteq> CHR ''+''"
    using dec_unsigned [of ?n] by blast
  from False have "Atoi (Itoa i) = Atoi (dec ?n)" by (simp add: Itoa_def)
  also have "\<dots> = Some (word_of_int (int ?n))"
  proof -
    have "digits_val (c # cs) 0 = Some (int ?n)" using digits_val_dec [of ?n] c(1) by simp
    with c n(2) show ?thesis by (simp add: Atoi_def del: digits_val.simps)
  qed
  also have "word_of_int (int ?n) = i" using n(1) by simp
  finally show ?thesis .
qed

lemma Atoi_todo_path: "Atoi (TrimPrefix (''/todos/'' @ Itoa i) ''/todos/'') = Some i"
  by (simp add: TrimPrefix_def HasPrefix_def Atoi_Itoa)

lemma HasPrefix_todo_path: "HasPrefix (''/todos/'' @ Itoa i) ''/todos/''"
  by (simp add: HasPrefix_def)

lemma Atoi_done_path:
  "Atoi (TrimSuffix (TrimPrefix (''/todos/'' @ Itoa i @ ''/done'') ''/todos/'') ''/done'') = Some i"
  by (simp add: TrimPrefix_def HasPrefix_def TrimSuffix_def HasSuffix_def Atoi_Itoa)

section \<open>Delete and update of an id without a record\<close>

text \<open>In the file-backed variant both answer 404 and leave the state as it is.\<close>

lemma deleteTodo_file_absent:
  assumes "Atoi (TrimPrefix (Path r) ''/todos/'') = Some i"
    and "i \<notin> set (map ID (elems (todos s)))"
  shows "deleteTodo_file s r = (s, http_NotFound)"
proof -
  from assms(2) have "findID i (elems (todos s)) = None" by (simp add: findID_None)
  with assms(1) show ?thesis by (simp add: deleteTodo_file_def)
qed

lemma updateTodo_file_absent:
  assumes "Atoi (TrimPrefix (Path r) ''/todos/'') = Some i"
    and "i \<notin> set (map ID (elems (todos s)))"
  shows "status (snd (updateTodo_file s r)) \<in> {400, 404} \<and> fst (updateTodo_file s r) = s"
proof -
  from assms(2) have "findID i (elems (todos s)) = None" by (simp add: findID_None)
  with assms(1) show ?thesis
    by (cases "Body r") (simp_all add: updateTodo_file_def reply_defs)
qed

text \<open>In the relational variant neither handler looks at the number of rows the
  statement affected: whatever the table holds, delete answers 400, 500 or 204 and
  update answers 400, 500 or 200.\<close>

lemma deleteTodo_db_status:
  "status (snd (deleteTodo_db up d r)) \<in> {400, 500, 204}"
  by (simp add: deleteTodo_db_def reply_defs split: option.split)

lemma updateTodo_db_status:
  "status (snd (updateTodo_db up d r)) \<in> {400, 500, 200}"
  by (simp add: updateTodo_db_def reply_defs split: option.split)

text \<open>
  C1. The claim: deleting an id that has no record answers NotFound (404), in both
  variants. The relational handler answers 204: on the empty table, with the database
  reachable, \<open>DELETE /todos/7\<close> is answered with 204 and no body.
\<close>

theorem deleteTodo_db_absent_is_204:
  "router_db True True \<lparr>table = [], serial = 1\<rparr>
     \<lparr>Method = ''DELETE'', Path = ''/todos/7'', Body = None\<rparr>
   = (\<lparr>table = [], serial = 1\<rparr>, \<lparr>status = 204, payload = NoBody\<rparr>)"
  by (simp add: router_db_def deleteTodo_db_def sql_delete_def string_defs)

text \<open>
  C2. The claim: updating an id that has no record answers NotFound (404), in both
  variants. The relational handler answers 200 with the request's title and done under
  the requested id: on the empty table, with the database reachable, \<open>PUT /todos/7\<close>
  is answered with 200 and a record that the table does not hold.
\<close>

theorem updateTodo_db_absent_is_200:
  "router_db True True \<lparr>table = [], serial = 1\<rparr>
     \<lparr>Method = ''PUT'', Path = ''/todos/7'',
      Body = Some \<lparr>ID = 0, Title = ''x'', Done = False\<rparr>\<rparr>
   = (\<lparr>table = [], serial = 1\<rparr>,
      \<lparr>status = 200, payload = JsonTodo \<lparr>ID = 7, Title = ''x'', Done = False\<rparr>\<rparr>)"
  by (simp add: router_db_def updateTodo_db_def sql_update_def string_defs reply_defs)

section \<open>Routing\<close>

text \<open>A handler that takes an id answers 400 when the stripped segment is not an
  integer, and leaves the state as it is.\<close>

lemma router_file_bad_id:
  assumes "Method r \<in> {''GET'', ''PUT'', ''DELETE''}" and "HasPrefix (Path r) ''/todos/''"
    and "Atoi (TrimPrefix (Path r) ''/todos/'') = None"
  shows "router_file s r = (s, http_Error ''Invalid ID'' 400)"
proof -
  from assms(2) have "Path r \<noteq> ''/todos''" by (auto simp: HasPrefix_def)
  with assms show ?thesis
    by (auto simp: router_file_def getTodo_def updateTodo_file_def deleteTodo_file_def)
qed

lemma router_file_bad_id_patch:
  assumes "Method r = ''PATCH''" and "HasSuffix (Path r) ''/done''"
    and "Atoi (TrimSuffix (TrimPrefix (Path r) ''/todos/'') ''/done'') = None"
  shows "router_file s r = (s, http_Error ''Invalid ID'' 400)"
  using assms by (simp add: router_file_def markAsDone_file_def)

lemma router_db_bad_id:
  assumes "Method r \<in> {''GET'', ''PUT'', ''DELETE''}" and "HasPrefix (Path r) ''/todos/''"
    and "Atoi (TrimPrefix (Path r) ''/todos/'') = None"
  shows "router_db up up2 d r = (d, http_Error ''Invalid ID'' 400)"
proof -
  from assms(2) have "Path r \<noteq> ''/todos''" by (auto simp: HasPrefix_def)
  with assms show ?thesis
    by (auto simp: router_db_def getTodoById_def updateTodo_db_def deleteTodo_db_def)
qed

lemma router_db_bad_id_patch:
  assumes "Method r = ''PATCH''" and "HasSuffix (Path r) ''/done''"
    and "Atoi (TrimSuffix (TrimPrefix (Path r) ''/todos/'') ''/done'') = None"
  shows "router_db up up2 d r = (d, http_Error ''Invalid ID'' 400)"
  using assms by (simp add: router_db_def markAsDone_db_def)

text \<open>A request outside the table is answered 404 by the default case, unless it is a
  \<open>PATCH\<close> whose path ends in \<open>/done\<close>: that one case of the switch tests the
  suffix alone.\<close>

lemma router_file_unmatched:
  assumes "\<not> dispatch_table r"
    and "\<not> (Method r = ''PATCH'' \<and> HasSuffix (Path r) ''/done'')"
  shows "router_file s r = (s, http_NotFound)"
  using assms by (auto simp: router_file_def dispatch_table_def)

lemma router_db_unmatched:
  assumes "\<not> dispatch_table r"
    and "\<not> (Method r = ''PATCH'' \<and> HasSuffix (Path r) ''/done'')"
  shows "router_db up up2 d r = (d, http_NotFound)"
  using assms by (auto simp: router_db_def dispatch_table_def)

text \<open>
  C4. The claim: every method and path outside the dispatch table is answered 404, and
  only the paths of the table reach a handler. \<open>PATCH /foo/done\<close> is outside the
  table, yet both routers hand it to \<open>markAsDone\<close>, which answers 400.
\<close>

theorem router_patch_outside_table_is_400:
  "\<not> dispatch_table \<lparr>Method = ''PATCH'', Path = ''/foo/done'', Body = None\<rparr>
   \<and> router_file init_fstate \<lparr>Method = ''PATCH'', Path = ''/foo/done'', Body = None\<rparr>
       = (init_fstate, \<lparr>status = 400, payload = Text ''Invalid ID''\<rparr>)
   \<and> router_db True True \<lparr>table = [], serial = 1\<rparr>
        \<lparr>Method = ''PATCH'', Path = ''/foo/done'', Body = None\<rparr>
       = (\<lparr>table = [], serial = 1\<rparr>, \<lparr>status = 400, payload = Text ''Invalid ID''\<rparr>)"
  by (simp add: dispatch_table_def router_file_def markAsDone_file_def router_db_def
      markAsDone_db_def string_defs reply_defs)

section \<open>Listing\<close>

lemma fold_append_slice:
  "fold (\<lambda>t sl. append_slice sl t) ts sl = (if ts = [] then sl else Some (elems sl @ ts))"
  by (induction ts arbitrary: sl) (auto simp: append_slice_def elems_def)

lemma sql_select_all_empty: "sql_select_all d = [] \<longleftrightarrow> table d = []"
  unfolding sql_select_all_def by (metis length_sort length_0_conv)

text \<open>The relational handler starts from a nil slice and appends the rows: without
  rows the slice stays nil and is encoded as \<open>null\<close>.\<close>

lemma getTodos_db_rows:
  "getTodos_db True d =
     \<lparr>status = 200,
      payload = (if table d = [] then JsonNull else JsonTodos (sql_select_all d))\<rparr>"
  by (simp add: getTodos_db_def fold_append_slice Encode_todos_def elems_def
      sql_select_all_empty)

text \<open>The file-backed handler encodes the slice it holds: an array whenever the slice
  is not nil, and \<open>null\<close> after a file that holds \<open>null\<close> was loaded.\<close>

lemma getTodos_file_array:
  "todos s = Some ts \<Longrightarrow> getTodos_file s = \<lparr>status = 200, payload = JsonTodos ts\<rparr>"
  by (simp add: getTodos_file_def Encode_todos_def)

lemma getTodos_file_null:
  "main_file Null = Inr \<lparr>todos = None, nextID = 1\<rparr>
   \<and> getTodos_file \<lparr>todos = None, nextID = 1\<rparr> = \<lparr>status = 200, payload = JsonNull\<rparr>"
  by (simp add: main_file_def loadTodosFromFile_def init_fstate_def getTodos_file_def
      Encode_todos_def)

text \<open>
  C5. The claim: \<open>GET /todos\<close> answers 200 with a JSON array, the empty array for an
  empty dataset, in both variants. On the empty table, with the database reachable, the
  relational variant answers 200 with the JSON value \<open>null\<close>.
\<close>

theorem getTodos_db_empty_is_null:
  "router_db True True \<lparr>table = [], serial = 1\<rparr>
     \<lparr>Method = ''GET'', Path = ''/todos'', Body = None\<rparr>
   = (\<lparr>table = [], serial = 1\<rparr>, \<lparr>status = 200, payload = JsonNull\<rparr>)"
  by (simp add: router_db_def getTodos_db_def sql_select_all_def Encode_todos_def)

section \<open>Creating\<close>

text \<open>
  C10. Whatever id the body of a \<open>POST /todos\<close> carries, the created record gets the
  value of the counter (file-backed) or of the sequence of the id column (relational):
  the response and the new state are the same for every id in the body.
\<close>

theorem createTodo_ignores_body_id:
  "router_file s \<lparr>Method = ''POST'', Path = ''/todos'', Body = Some (t\<lparr>ID := j\<rparr>)\<rparr>
     = (s\<lparr>nextID := nextID s + 1, todos := Some (elems (todos s) @ [t\<lparr>ID := nextID s\<rparr>])\<rparr>,
        \<lparr>status = 201, payload = JsonTodo (t\<lparr>ID := nextID s\<rparr>)\<rparr>)
   \<and> router_db up up2 d \<lparr>Method = ''POST'', Path = ''/todos'', Body = Some (t\<lparr>ID := j\<rparr>)\<rparr>
     = router_db up up2 d \<lparr>Method = ''POST'', Path = ''/todos'', Body = Some t\<rparr>
   \<and> (up \<and> serial d \<notin> set (map ID (table d)) \<longrightarrow>
       router_db up up2 d \<lparr>Method = ''POST'', Path = ''/todos'', Body = Some (t\<lparr>ID := j\<rparr>)\<rparr>
       = (d\<lparr>serial := serial d + 1, table := table d @ [t\<lparr>ID := serial d\<rparr>]\<rparr>,
          \<lparr>status = 201, payload = JsonTodo (t\<lparr>ID := serial d\<rparr>)\<rparr>))"
  by (simp add: router_file_def createTodo_file_def saveTodosToFile_def append_slice_def
      router_db_def createTodo_db_def sql_insert_def Let_def split: prod.split option.split)

theorem createTodo_ignores_body_id_witness:
  "router_file \<lparr>todos = Some [\<lparr>ID = 1, Title = ''a'', Done = False\<rparr>], nextID = 2\<rparr>
     \<lparr>Method = ''POST'', Path = ''/todos'', Body = Some \<lparr>ID = 40, Title = ''b'', Done = False\<rparr>\<rparr>
   = (\<lparr>todos = Some [\<lparr>ID = 1, Title = ''a'', Done = False\<rparr>,
                     \<lparr>ID = 2, Title = ''b'', Done = False\<rparr>], nextID = 3\<rparr>,
      \<lparr>status = 201, payload = JsonTodo \<lparr>ID = 2, Title = ''b'', Done = False\<rparr>\<rparr>)
   \<and> serial \<lparr>table = [\<lparr>ID = 1, Title = ''a'', Done = False\<rparr>], serial = 2\<rparr>
       \<notin> set (map ID (table \<lparr>table = [\<lparr>ID = 1, Title = ''a'', Done = False\<rparr>], serial = 2\<rparr>))
   \<and> router_db True True \<lparr>table = [\<lparr>ID = 1, Title = ''a'', Done = False\<rparr>], serial = 2\<rparr>
     \<lparr>Method = ''POST'', Path = ''/todos'', Body = Some \<lparr>ID = 40, Title = ''b'', Done = False\<rparr>\<rparr>
   = (\<lparr>table = [\<lparr>ID = 1, Title = ''a'', Done = False\<rparr>,
                 \<lparr>ID = 2, Title = ''b'', Done = False\<rparr>], serial = 3\<rparr>,
      \<lparr>status = 201, payload = JsonTodo \<lparr>ID = 2, Title = ''b'', Done = False\<rparr>\<rparr>)"
  using createTodo_ignores_body_id
    [where s = "\<lparr>todos = Some [\<lparr>ID = 1, Title = ''a'', Done = False\<rparr>], nextID = 2\<rparr>"
       and t = "\<lparr>ID = 0, Title = ''b'', Done = False\<rparr>" and j = 40
       and up = True and ?up2.0 = True
       and d = "\<lparr>table = [\<lparr>ID = 1, Title = ''a'', Done = False\<rparr>], serial = 2\<rparr>"]
  by (auto simp: elems_def)

section \<open>Marking as done\<close>






lemma markAsDone_file_present:
  assumes "Atoi (TrimSuffix (TrimPrefix (Path r) ''/todos/'') ''/done'') = Some i"
    and "findID i (elems (todos s)) = Some k"
  shows "markAsDone_file s r =
           (s\<lparr>todos := Some ((elems (todos s))[k := (elems (todos s) ! k)\<lparr>Done := True\<rparr>])\<rparr>,
            Encode_todo ((elems (todos s) ! k)\<lparr>Done := True\<rparr>))"
proof -
  from assms(2) have "k < length (elems (todos s))" by (simp add: findID_Some)
  with assms show ?thesis by (simp add: markAsDone_file_def saveTodosToFile_def)
qed






section \<open>The id counter of the file-backed variant\<close>

subsection \<open>Signed arithmetic on the counter\<close>

lemma sint_succ:
  fixes n :: go_int
  assumes "sint n < MaxInt64"
  shows "sint (n + 1) = sint n + 1"
proof -
  have lo: "- (2 ^ 63) \<le> sint n" using sint_ge [of n] by simp
  have "sint (n + 1) = signed_take_bit 63 (sint n + 1)"
    by (simp add: sint_word_ariths)
  also have "\<dots> = sint n + 1"
    using lo assms by (simp add: signed_take_bit_int_eq_self MaxInt64_def)
  finally show ?thesis .
qed

lemma sint_le_MaxInt64: "sint (n :: go_int) \<le> MaxInt64"
  using sint_lt [of n] by (simp add: MaxInt64_def)

lemma advance_step:
  assumes "sint (ID t) < MaxInt64"
  shows "sint n \<le> sint (advance t n) \<and> sint (ID t) < sint (advance t n)"
  using assms by (simp add: advance_def sint_succ)

lemma fold_advance_mono:
  assumes "list_all (\<lambda>t. sint (ID t) < MaxInt64) ts"
  shows "sint n \<le> sint (fold advance ts n)
         \<and> list_all (\<lambda>t. sint (ID t) < sint (fold advance ts n)) ts"
  using assms
proof (induction ts arbitrary: n)
  case Nil
  then show ?case by simp
next
  case (Cons t ts)
  from Cons.prems have t: "sint (ID t) < MaxInt64" and ts: "list_all (\<lambda>t. sint (ID t) < MaxInt64) ts"
    by simp_all
  from advance_step [OF t, of n] Cons.IH [OF ts, of "advance t n"]
  show ?case by auto
qed

subsection \<open>One request\<close>

text \<open>What one request does to the ids of the dataset and to the counter.\<close>

lemma map_ID_update:
  "k < length ts \<Longrightarrow> ID (ts ! k) = ID u \<Longrightarrow> map ID (ts[k := u]) = map ID ts"
  by (simp add: list_eq_iff_nth_eq nth_list_update)

lemma updateTodo_file_present:
  assumes "Atoi (TrimPrefix (Path r) ''/todos/'') = Some i" and "Body r = Some u"
    and "findID i (elems (todos s)) = Some k"
  shows "updateTodo_file s r =
           (s\<lparr>todos := Some ((elems (todos s))[k := u\<lparr>ID := i\<rparr>])\<rparr>, Encode_todo (u\<lparr>ID := i\<rparr>))"
  using assms by (simp add: updateTodo_file_def saveTodosToFile_def Let_def)

lemma deleteTodo_file_present:
  assumes "Atoi (TrimPrefix (Path r) ''/todos/'') = Some i"
    and "findID i (elems (todos s)) = Some k"
  shows "deleteTodo_file s r =
           (s\<lparr>todos := Some (take k (elems (todos s)) @ drop (Suc k) (elems (todos s)))\<rparr>,
            \<lparr>status = 204, payload = NoBody\<rparr>)"
  using assms by (simp add: deleteTodo_file_def saveTodosToFile_def)

lemma updateTodo_file_ids:
  assumes "updateTodo_file s r = (s', a)"
  shows "map ID (elems (todos s')) = map ID (elems (todos s)) \<and> nextID s' = nextID s
         \<and> status a \<noteq> 201"
proof (cases "Atoi (TrimPrefix (Path r) ''/todos/'')")
  case None
  with assms show ?thesis by (auto simp: updateTodo_file_def reply_defs)
next
  case (Some i)
  note id = this
  show ?thesis
  proof (cases "Body r")
    case None
    with id assms show ?thesis by (auto simp: updateTodo_file_def reply_defs)
  next
    case (Some u)
    note body = this
    show ?thesis
    proof (cases "findID i (elems (todos s))")
      case None
      with id body assms show ?thesis by (auto simp: updateTodo_file_def reply_defs)
    next
      case (Some k)
      then have "k < length (elems (todos s))" "ID (elems (todos s) ! k) = i"
        by (simp_all add: findID_Some)
      then have "map ID ((elems (todos s))[k := u\<lparr>ID := i\<rparr>]) = map ID (elems (todos s))"
        by (simp add: map_ID_update)
      with updateTodo_file_present [OF id body Some] assms show ?thesis
        by (auto simp: elems_Some reply_defs)
    qed
  qed
qed

lemma markAsDone_file_ids:
  assumes "markAsDone_file s r = (s', a)"
  shows "map ID (elems (todos s')) = map ID (elems (todos s)) \<and> nextID s' = nextID s
         \<and> status a \<noteq> 201"
proof (cases "Atoi (TrimSuffix (TrimPrefix (Path r) ''/todos/'') ''/done'')")
  case None
  with assms show ?thesis by (auto simp: markAsDone_file_def reply_defs)
next
  case (Some i)
  note id = this
  show ?thesis
  proof (cases "findID i (elems (todos s))")
    case None
    with id assms show ?thesis by (auto simp: markAsDone_file_def reply_defs)
  next
    case (Some k)
    then have "k < length (elems (todos s))" by (simp add: findID_Some)
    then have "map ID ((elems (todos s))[k := (elems (todos s) ! k)\<lparr>Done := True\<rparr>])
                 = map ID (elems (todos s))"
      by (simp add: map_ID_update)
    with markAsDone_file_present [OF id Some] assms show ?thesis
      by (auto simp: elems_Some reply_defs)
  qed
qed

lemma deleteTodo_file_ids:
  assumes "deleteTodo_file s r = (s', a)"
  shows "(elems (todos s') = elems (todos s)
          \<or> (\<exists>k. elems (todos s') = take k (elems (todos s)) @ drop (Suc k) (elems (todos s))))
         \<and> nextID s' = nextID s \<and> status a \<noteq> 201"
proof (cases "Atoi (TrimPrefix (Path r) ''/todos/'')")
  case None
  with assms show ?thesis by (auto simp: deleteTodo_file_def reply_defs)
next
  case (Some i)
  note id = this
  show ?thesis
  proof (cases "findID i (elems (todos s))")
    case None
    with id assms show ?thesis by (auto simp: deleteTodo_file_def reply_defs)
  next
    case (Some k)
    with deleteTodo_file_present [OF id Some] assms show ?thesis
      by (auto simp: elems_Some)
  qed
qed

lemma getTodo_status: "status (getTodo s r) \<noteq> 201"
  by (simp add: getTodo_def reply_defs split: option.split)

lemma getTodos_file_status: "status (getTodos_file s) \<noteq> 201"
  by (simp add: getTodos_file_def reply_defs)

lemma router_file_create:
  assumes "is_create r"
  shows "\<exists>t. Body r = Some t \<and> router_file s r =
           (s\<lparr>nextID := nextID s + 1, todos := Some (elems (todos s) @ [t\<lparr>ID := nextID s\<rparr>])\<rparr>,
            \<lparr>status = 201, payload = JsonTodo (t\<lparr>ID := nextID s\<rparr>)\<rparr>)"
  using assms
  by (auto simp: is_create_def router_file_def createTodo_file_def saveTodosToFile_def
      append_slice_def Let_def)

lemma router_file_cases:
  "router_file s r = (s, getTodos_file s)
   \<or> (Method r = ''POST'' \<and> Path r = ''/todos'' \<and> router_file s r = createTodo_file s r)
   \<or> router_file s r = (s, getTodo s r)
   \<or> router_file s r = updateTodo_file s r
   \<or> router_file s r = deleteTodo_file s r
   \<or> router_file s r = markAsDone_file s r
   \<or> router_file s r = (s, http_NotFound)"
  by (simp add: router_file_def)

lemma router_file_other:
  assumes "\<not> is_create r" and "router_file s r = (s', a)"
  shows "(map ID (elems (todos s')) = map ID (elems (todos s))
          \<or> (\<exists>k. elems (todos s') = take k (elems (todos s)) @ drop (Suc k) (elems (todos s))))
         \<and> nextID s' = nextID s \<and> status a \<noteq> 201"
proof -
  consider (list) "router_file s r = (s, getTodos_file s)"
    | (post) "Method r = ''POST''" "Path r = ''/todos''" "router_file s r = createTodo_file s r"
    | (get) "router_file s r = (s, getTodo s r)"
    | (put) "router_file s r = updateTodo_file s r"
    | (del) "router_file s r = deleteTodo_file s r"
    | (patch) "router_file s r = markAsDone_file s r"
    | (none) "router_file s r = (s, http_NotFound)"
    using router_file_cases [of s r] by blast
  then show ?thesis
  proof cases
    case list
    with assms(2) show ?thesis by (auto simp: getTodos_file_status)
  next
    case post
    with assms(1) have "Body r = None" by (simp add: is_create_def)
    with post assms(2) show ?thesis
      by (auto simp: createTodo_file_def reply_defs)
  next
    case get
    with assms(2) show ?thesis by (auto simp: getTodo_status)
  next
    case put
    with assms(2) have "updateTodo_file s r = (s', a)" by simp
    from updateTodo_file_ids [OF this] show ?thesis by simp
  next
    case del
    with assms(2) have "deleteTodo_file s r = (s', a)" by simp
    from deleteTodo_file_ids [OF this] show ?thesis by auto
  next
    case patch
    with assms(2) have "markAsDone_file s r = (s', a)" by simp
    from markAsDone_file_ids [OF this] show ?thesis by simp
  next
    case none
    with assms(2) show ?thesis by (auto simp: reply_defs)
  qed
qed

subsection \<open>The invariants along a run\<close>

lemma below_counter_alt:
  "below_counter s \<longleftrightarrow> (\<forall>i \<in> set (map ID (elems (todos s))). sint i < sint (nextID s))"
  by (auto simp: below_counter_def list_all_iff)

lemma ascending_alt: "ascending ts \<longleftrightarrow> sorted_wrt (\<lambda>x y. sint x < sint y) (map ID ts)"
  by (simp add: ascending_def sorted_wrt_map)

lemma sorted_wrt_remove_nth:
  assumes "sorted_wrt P xs"
  shows "sorted_wrt P (take k xs @ drop (Suc k) xs)"
proof -
  from assms have "sorted_wrt P (take k xs @ drop k xs)" by simp
  then have cross: "\<forall>x \<in> set (take k xs). \<forall>y \<in> set (drop k xs). P x y"
    by (simp only: sorted_wrt_append) blast
  have "set (drop (Suc k) xs) \<subseteq> set (drop k xs)"
    by (rule set_drop_subset_set_drop) simp
  with cross have "\<forall>x \<in> set (take k xs). \<forall>y \<in> set (drop (Suc k) xs). P x y" by blast
  with assms show ?thesis
    by (simp add: sorted_wrt_append sorted_wrt_take sorted_wrt_drop)
qed

lemma router_file_other_inv:
  assumes "\<not> is_create r" and "router_file s r = (s', a)"
  shows "(below_counter s \<longrightarrow> below_counter s')
       \<and> (ascending (elems (todos s)) \<longrightarrow> ascending (elems (todos s')))
       \<and> nextID s' = nextID s \<and> created [a] = []"
proof -
  from router_file_other [OF assms]
  have ids: "map ID (elems (todos s')) = map ID (elems (todos s))
          \<or> (\<exists>k. elems (todos s') = take k (elems (todos s)) @ drop (Suc k) (elems (todos s)))"
    and n: "nextID s' = nextID s" and st: "status a \<noteq> 201" by simp_all
  from ids have "set (map ID (elems (todos s'))) \<subseteq> set (map ID (elems (todos s)))"
  proof
    assume "map ID (elems (todos s')) = map ID (elems (todos s))"
    then show ?thesis by simp
  next
    assume "\<exists>k. elems (todos s') = take k (elems (todos s)) @ drop (Suc k) (elems (todos s))"
    then obtain k where "elems (todos s') = take k (elems (todos s)) @ drop (Suc k) (elems (todos s))" ..
    then show ?thesis by (auto dest: in_set_takeD in_set_dropD)
  qed
  with n have 1: "below_counter s \<longrightarrow> below_counter s'"
    unfolding below_counter_alt by auto
  from ids have 2: "ascending (elems (todos s)) \<longrightarrow> ascending (elems (todos s'))"
  proof
    assume "map ID (elems (todos s')) = map ID (elems (todos s))"
    then show ?thesis by (simp add: ascending_alt)
  next
    assume "\<exists>k. elems (todos s') = take k (elems (todos s)) @ drop (Suc k) (elems (todos s))"
    then obtain k where "elems (todos s') = take k (elems (todos s)) @ drop (Suc k) (elems (todos s))" ..
    then show ?thesis by (simp add: ascending_def sorted_wrt_remove_nth)
  qed
  from st have "created [a] = []" by (cases "payload a") simp_all
  with 1 2 n show ?thesis by simp
qed

lemma router_file_create_inv:
  assumes "is_create r" and "sint (nextID s) < MaxInt64" and "router_file s r = (s', a)"
  shows "(below_counter s \<longrightarrow> below_counter s')
       \<and> (below_counter s \<and> ascending (elems (todos s)) \<longrightarrow> ascending (elems (todos s')))
       \<and> sint (nextID s') = sint (nextID s) + 1 \<and> created [a] = [nextID s]"
proof -
  from router_file_create [OF assms(1), of s] assms(3) obtain t where
    s': "s' = s\<lparr>nextID := nextID s + 1, todos := Some (elems (todos s) @ [t\<lparr>ID := nextID s\<rparr>])\<rparr>"
    and a: "a = \<lparr>status = 201, payload = JsonTodo (t\<lparr>ID := nextID s\<rparr>)\<rparr>" by auto
  from assms(2) have n: "sint (nextID s + 1) = sint (nextID s) + 1" by (rule sint_succ)
  from s' n have 1: "below_counter s \<longrightarrow> below_counter s'"
    by (auto simp: below_counter_def elems_Some list_all_iff)
  from s' have 2: "below_counter s \<and> ascending (elems (todos s)) \<longrightarrow> ascending (elems (todos s'))"
    by (auto simp: below_counter_def ascending_def elems_Some list_all_iff sorted_wrt_append)
  from s' n a 1 2 show ?thesis by simp
qed

lemma created_Cons: "created (a # as) = created [a] @ created as"
  by (cases "payload a") simp_all

lemma upt_shift: "map f [0..<Suc n] = f 0 # map (\<lambda>k. f (Suc k)) [0..<n]"
  by (simp only: upt_conv_Cons [of 0 "Suc n"] map_Suc_upt [symmetric]) (simp add: comp_def)

lemma serve_file_inv:
  assumes "sint (nextID s) + int (length (filter is_create rs)) \<le> MaxInt64"
  shows "(below_counter s \<longrightarrow> below_counter (fst (serve_file s rs)))
     \<and> (below_counter s \<and> ascending (elems (todos s))
          \<longrightarrow> ascending (elems (todos (fst (serve_file s rs)))))
     \<and> sint (nextID (fst (serve_file s rs)))
          = sint (nextID s) + int (length (filter is_create rs))
     \<and> map sint (created (snd (serve_file s rs)))
          = map (\<lambda>k. sint (nextID s) + int k) [0..<length (filter is_create rs)]"
  using assms
proof (induction rs arbitrary: s)
  case Nil
  then show ?case by simp
next
  case (Cons r rs)
  obtain s1 a where step: "router_file s r = (s1, a)" by (cases "router_file s r")
  obtain s2 as where rest: "serve_file s1 rs = (s2, as)" by (cases "serve_file s1 rs")
  from step rest have all: "serve_file s (r # rs) = (s2, a # as)" by simp
  show ?case
  proof (cases "is_create r")
    case True
    with Cons.prems have room: "sint (nextID s) < MaxInt64"
      and bound: "sint (nextID s) + 1 + int (length (filter is_create rs)) \<le> MaxInt64"
      by simp_all
    from router_file_create_inv [OF True room step]
    have 1: "below_counter s \<longrightarrow> below_counter s1"
      and 2: "below_counter s \<and> ascending (elems (todos s)) \<longrightarrow> ascending (elems (todos s1))"
      and 3: "sint (nextID s1) = sint (nextID s) + 1" and 4: "created [a] = [nextID s]"
      by simp_all
    from bound 3 have "sint (nextID s1) + int (length (filter is_create rs)) \<le> MaxInt64"
      by simp
    from Cons.IH [OF this] rest 3
    have 5: "below_counter s1 \<longrightarrow> below_counter s2"
      and 6: "below_counter s1 \<and> ascending (elems (todos s1)) \<longrightarrow> ascending (elems (todos s2))"
      and 7: "sint (nextID s2) = sint (nextID s) + 1 + int (length (filter is_create rs))"
      and 8: "map sint (created as)
               = map (\<lambda>k. sint (nextID s) + 1 + int k) [0..<length (filter is_create rs)]"
      by simp_all
    have "map sint (created (a # as))
            = map (\<lambda>k. sint (nextID s) + int k) [0..<Suc (length (filter is_create rs))]"
      unfolding created_Cons [of a as] 4 upt_shift using 8 by (simp add: add.assoc)
    with True 1 2 5 6 7 all show ?thesis by simp
  next
    case False
    from router_file_other_inv [OF False step]
    have 1: "below_counter s \<longrightarrow> below_counter s1"
      and 2: "ascending (elems (todos s)) \<longrightarrow> ascending (elems (todos s1))"
      and 3: "nextID s1 = nextID s" and 4: "created [a] = []"
      by simp_all
    from Cons.prems False 3
    have "sint (nextID s1) + int (length (filter is_create rs)) \<le> MaxInt64" by simp
    from Cons.IH [OF this] rest 3
    have 5: "below_counter s1 \<longrightarrow> below_counter s2"
      and 6: "below_counter s1 \<and> ascending (elems (todos s1)) \<longrightarrow> ascending (elems (todos s2))"
      and 7: "sint (nextID s2) = sint (nextID s) + int (length (filter is_create rs))"
      and 8: "map sint (created as)
               = map (\<lambda>k. sint (nextID s) + int k) [0..<length (filter is_create rs)]"
      by simp_all
    have "created (a # as) = created as"
      unfolding created_Cons [of a as] 4 by simp
    with False 1 2 5 6 7 8 all show ?thesis by simp
  qed
qed

lemma progression_sorted: "sorted_wrt (<) (map (\<lambda>k. (c::int) + int k) [0..<n])"
  by (simp add: sorted_wrt_map sorted_wrt_iff_nth_less)

text \<open>
  C3, as the claim states it, fails where the counter wraps. After loading a file whose
  only record has id \<open>2\<^sup>6\<^sup>3 - 2\<close> the counter is \<open>2\<^sup>6\<^sup>3 - 1\<close>; the first create
  returns \<open>2\<^sup>6\<^sup>3 - 1\<close>, the counter wraps, and the second create returns
  \<open>- 2\<^sup>6\<^sup>3\<close>, which is below the id handed out before.
\<close>

theorem counter_wraps_counterexample:
  "main_file (Records [\<lparr>ID = 9223372036854775806, Title = ''a'', Done = False\<rparr>])
     = Inr \<lparr>todos = Some [\<lparr>ID = 9223372036854775806, Title = ''a'', Done = False\<rparr>],
            nextID = 9223372036854775807\<rparr>
   \<and> created (snd (serve_file
        \<lparr>todos = Some [\<lparr>ID = 9223372036854775806, Title = ''a'', Done = False\<rparr>],
         nextID = 9223372036854775807\<rparr>
        [\<lparr>Method = ''POST'', Path = ''/todos'', Body = Some \<lparr>ID = 0, Title = ''b'', Done = False\<rparr>\<rparr>,
         \<lparr>Method = ''POST'', Path = ''/todos'', Body = Some \<lparr>ID = 0, Title = ''c'', Done = False\<rparr>\<rparr>]))
     = [9223372036854775807, - 9223372036854775808]
   \<and> sint (- 9223372036854775808 :: go_int) < sint (9223372036854775807 :: go_int)"
  by (simp add: file_eval)

text \<open>
  C3, amended. From a state in which the counter is above every id of the dataset, and
  for a run whose creates do not take the counter beyond \<open>MaxInt64\<close>: the invariant
  holds again after the run; the ids handed out are the counter's value at the start,
  then that plus one, and so on, hence each is above all ids handed out before it and
  above every id the dataset held at the start, whatever was deleted in between.
\<close>

theorem created_ids_increase:
  assumes "below_counter s"
    and "sint (nextID s) + int (length (filter is_create rs)) \<le> MaxInt64"
    and "serve_file s rs = (s', as)"
  shows "below_counter s'
     \<and> map sint (created as)
         = map (\<lambda>k. sint (nextID s) + int k) [0..<length (filter is_create rs)]
     \<and> sorted_wrt (<) (map sint (created as))
     \<and> (\<forall>i \<in> set (created as). \<forall>t \<in> set (elems (todos s)). sint (ID t) < sint i)
     \<and> sint (nextID s') = sint (nextID s) + int (length (filter is_create rs))"
proof -
  from serve_file_inv [OF assms(2)] assms(1,3)
  have inv: "below_counter s'"
    and ids: "map sint (created as)
         = map (\<lambda>k. sint (nextID s) + int k) [0..<length (filter is_create rs)]"
    and cnt: "sint (nextID s') = sint (nextID s) + int (length (filter is_create rs))"
    by simp_all
  from ids have srt: "sorted_wrt (<) (map sint (created as))"
    by (simp only: progression_sorted)
  have "\<forall>i \<in> set (created as). sint (nextID s) \<le> sint i"
  proof
    fix i assume "i \<in> set (created as)"
    then have "sint i \<in> set (map sint (created as))" by simp
    with ids show "sint (nextID s) \<le> sint i" by auto
  qed
  with assms(1) have "\<forall>i \<in> set (created as). \<forall>t \<in> set (elems (todos s)). sint (ID t) < sint i"
    by (fastforce simp: below_counter_def list_all_iff)
  with inv ids srt cnt show ?thesis by simp
qed

theorem created_ids_increase_witness:
  "below_counter init_fstate
   \<and> sint (nextID init_fstate)
       + int (length (filter is_create
           [\<lparr>Method = ''POST'', Path = ''/todos'', Body = Some \<lparr>ID = 0, Title = ''b'', Done = False\<rparr>\<rparr>,
            \<lparr>Method = ''DELETE'', Path = ''/todos/1'', Body = None\<rparr>,
            \<lparr>Method = ''POST'', Path = ''/todos'', Body = Some \<lparr>ID = 0, Title = ''c'', Done = False\<rparr>\<rparr>]))
       \<le> MaxInt64
   \<and> serve_file init_fstate
        [\<lparr>Method = ''POST'', Path = ''/todos'', Body = Some \<lparr>ID = 0, Title = ''b'', Done = False\<rparr>\<rparr>,
         \<lparr>Method = ''DELETE'', Path = ''/todos/1'', Body = None\<rparr>,
         \<lparr>Method = ''POST'', Path = ''/todos'', Body = Some \<lparr>ID = 0, Title = ''c'', Done = False\<rparr>\<rparr>]
      = (\<lparr>todos = Some [\<lparr>ID = 2, Title = ''c'', Done = False\<rparr>], nextID = 3\<rparr>,
         [\<lparr>status = 201, payload = JsonTodo \<lparr>ID = 1, Title = ''b'', Done = False\<rparr>\<rparr>,
          \<lparr>status = 204, payload = NoBody\<rparr>,
          \<lparr>status = 201, payload = JsonTodo \<lparr>ID = 2, Title = ''c'', Done = False\<rparr>\<rparr>])
   \<and> below_counter \<lparr>todos = Some [\<lparr>ID = 2, Title = ''c'', Done = False\<rparr>], nextID = 3\<rparr>
   \<and> map sint (created
        [\<lparr>status = 201, payload = JsonTodo \<lparr>ID = 1, Title = ''b'', Done = False\<rparr>\<rparr>,
         \<lparr>status = 204, payload = NoBody\<rparr>,
         \<lparr>status = 201, payload = JsonTodo \<lparr>ID = 2, Title = ''c'', Done = False\<rparr>\<rparr>]) = [1, 2]"
proof -
  let ?rs = "[\<lparr>Method = ''POST'', Path = ''/todos'', Body = Some \<lparr>ID = 0, Title = ''b'', Done = False\<rparr>\<rparr>,
         \<lparr>Method = ''DELETE'', Path = ''/todos/1'', Body = None\<rparr>,
         \<lparr>Method = ''POST'', Path = ''/todos'', Body = Some \<lparr>ID = 0, Title = ''c'', Done = False\<rparr>\<rparr>]"
  let ?s' = "\<lparr>todos = Some [\<lparr>ID = 2, Title = ''c'', Done = False\<rparr>], nextID = 3\<rparr>"
  let ?as = "[\<lparr>status = 201, payload = JsonTodo \<lparr>ID = 1, Title = ''b'', Done = False\<rparr>\<rparr>,
          \<lparr>status = 204, payload = NoBody\<rparr>,
          \<lparr>status = 201, payload = JsonTodo \<lparr>ID = 2, Title = ''c'', Done = False\<rparr>\<rparr>]"
  have h1: "below_counter init_fstate"
    by (simp add: below_counter_def init_fstate_def elems_def)
  have h2: "sint (nextID init_fstate) + int (length (filter is_create ?rs)) \<le> MaxInt64"
    by (simp add: init_fstate_def is_create_def MaxInt64_def)
  have h3: "serve_file init_fstate ?rs = (?s', ?as)"
    by (simp add: file_eval deleteTodo_file_def string_defs)
  from created_ids_increase [OF h1 h2 h3] h1 h2 h3 show ?thesis
    by (simp add: init_fstate_def is_create_def)
qed

text \<open>From the initial state the ids handed out are 1, 2, 3 and so on.\<close>

lemma fresh_ids_start_at_1:
  assumes "1 + int (length (filter is_create rs)) \<le> MaxInt64"
  shows "map sint (created (snd (serve_file init_fstate rs)))
           = map (\<lambda>k. 1 + int k) [0..<length (filter is_create rs)]"
proof -
  from assms have "sint (nextID init_fstate) + int (length (filter is_create rs)) \<le> MaxInt64"
    by (simp add: init_fstate_def)
  from serve_file_inv [OF this] show ?thesis by (simp add: init_fstate_def)
qed

subsection \<open>Loading the file\<close>

lemma main_file_Records:
  "main_file (Records ts) = Inr \<lparr>todos = Some ts, nextID = fold advance ts 1\<rparr>"
  by (simp add: main_file_def loadTodosFromFile_def init_fstate_def)

text \<open>
  C7, as the claim states it, fails for a file that holds the largest id: \<open>t.ID + 1\<close>
  wraps, the counter becomes \<open>- 2\<^sup>6\<^sup>3\<close>, and that is the id of the next record.
\<close>

theorem load_counter_wraps_counterexample:
  "main_file (Records [\<lparr>ID = 9223372036854775807, Title = ''a'', Done = False\<rparr>])
     = Inr \<lparr>todos = Some [\<lparr>ID = 9223372036854775807, Title = ''a'', Done = False\<rparr>],
            nextID = - 9223372036854775808\<rparr>
   \<and> snd (router_file
        \<lparr>todos = Some [\<lparr>ID = 9223372036854775807, Title = ''a'', Done = False\<rparr>],
         nextID = - 9223372036854775808\<rparr>
        \<lparr>Method = ''POST'', Path = ''/todos'', Body = Some \<lparr>ID = 0, Title = ''b'', Done = False\<rparr>\<rparr>)
     = \<lparr>status = 201, payload = JsonTodo \<lparr>ID = - 9223372036854775808, Title = ''b'', Done = False\<rparr>\<rparr>
   \<and> sint (- 9223372036854775808 :: go_int) < sint (9223372036854775807 :: go_int)"
  by (simp add: file_eval)

text \<open>
  C7, amended. For a file whose ids are all below \<open>MaxInt64\<close>, loading leaves the
  counter above every id of the file, and the next create answers 201 with a record
  whose id is that counter.
\<close>

theorem load_counter_above_file:
  assumes "list_all (\<lambda>u. sint (ID u) < MaxInt64) ts"
  shows "\<exists>s. main_file (Records ts) = Inr s \<and> todos s = Some ts
           \<and> list_all (\<lambda>u. sint (ID u) < sint (nextID s)) ts
           \<and> (\<forall>t. snd (router_file s \<lparr>Method = ''POST'', Path = ''/todos'', Body = Some t\<rparr>)
                    = \<lparr>status = 201, payload = JsonTodo (t\<lparr>ID := nextID s\<rparr>)\<rparr>)"
proof -
  let ?s = "\<lparr>todos = Some ts, nextID = fold advance ts 1\<rparr>"
  from fold_advance_mono [OF assms, of 1]
  have "list_all (\<lambda>u. sint (ID u) < sint (nextID ?s)) ts" by simp
  moreover have "\<forall>t. snd (router_file ?s \<lparr>Method = ''POST'', Path = ''/todos'', Body = Some t\<rparr>)
                    = \<lparr>status = 201, payload = JsonTodo (t\<lparr>ID := nextID ?s\<rparr>)\<rparr>"
    by (simp add: router_file_def createTodo_file_def Let_def)
  ultimately show ?thesis
    using main_file_Records [of ts] by (intro exI [of _ ?s]) simp
qed

theorem load_counter_above_file_witness:
  "list_all (\<lambda>u. sint (ID u) < MaxInt64)
     [\<lparr>ID = 5, Title = ''a'', Done = True\<rparr>, \<lparr>ID = 3, Title = ''b'', Done = False\<rparr>]
   \<and> main_file (Records [\<lparr>ID = 5, Title = ''a'', Done = True\<rparr>, \<lparr>ID = 3, Title = ''b'', Done = False\<rparr>])
      = Inr \<lparr>todos = Some [\<lparr>ID = 5, Title = ''a'', Done = True\<rparr>, \<lparr>ID = 3, Title = ''b'', Done = False\<rparr>],
             nextID = 6\<rparr>
   \<and> snd (router_file
        \<lparr>todos = Some [\<lparr>ID = 5, Title = ''a'', Done = True\<rparr>, \<lparr>ID = 3, Title = ''b'', Done = False\<rparr>],
             nextID = 6\<rparr>
        \<lparr>Method = ''POST'', Path = ''/todos'', Body = Some \<lparr>ID = 0, Title = ''c'', Done = False\<rparr>\<rparr>)
      = \<lparr>status = 201, payload = JsonTodo \<lparr>ID = 6, Title = ''c'', Done = False\<rparr>\<rparr>"
proof -
  have h: "list_all (\<lambda>u. sint (ID u) < MaxInt64)
     [\<lparr>ID = 5, Title = ''a'', Done = True\<rparr>, \<lparr>ID = 3, Title = ''b'', Done = False\<rparr>]"
    by (simp add: MaxInt64_def)
  from load_counter_above_file [OF h] h show ?thesis
    by (auto simp: file_eval)
qed

section \<open>The order of the list\<close>

lemma ascending_sort:
  assumes "distinct (map ID ts)"
  shows "ascending (sort_key (\<lambda>t. sint (ID t)) ts)"
proof -
  let ?f = "\<lambda>t. sint (ID t)"
  have "inj_on (sint :: go_int \<Rightarrow> int) (set (map ID ts))"
    by (rule inj_onI) (rule signed_word_eqI)
  with assms have "distinct (map sint (map ID ts))"
    by (simp only: distinct_map)
  then have "distinct (map ?f ts)" by (simp add: comp_def)
  then have "distinct ts" "inj_on ?f (set ts)" by (simp_all add: distinct_map)
  then have "distinct (map ?f (sort_key ?f ts))" by (simp add: distinct_map)
  moreover have "sorted (map ?f (sort_key ?f ts))" by (rule sorted_sort_key)
  ultimately have "sorted_wrt (<) (map ?f (sort_key ?f ts))"
    by (simp only: strict_sorted_iff)
  then show ?thesis by (simp add: ascending_def sorted_wrt_map)
qed

lemma getTodos_db_sorted:
  assumes "distinct (map ID (table d))"
  shows "\<exists>sl. getTodos_db True d = Encode_todos sl \<and> mset (elems sl) = mset (table d)
              \<and> ascending (elems sl)"
proof -
  let ?sl = "fold (\<lambda>t sl. append_slice sl t) (sql_select_all d) None"
  have e: "elems ?sl = sql_select_all d"
    by (simp add: fold_append_slice elems_def)
  have "getTodos_db True d = Encode_todos ?sl" by (simp add: getTodos_db_def)
  moreover have "mset (elems ?sl) = mset (table d)"
    unfolding e by (simp add: sql_select_all_def)
  moreover have "ascending (sql_select_all d)"
    unfolding sql_select_all_def using assms by (rule ascending_sort)
  then have "ascending (elems ?sl)" by (simp only: e)
  ultimately show ?thesis by blast
qed

lemma main_file_inv:
  assumes "main_file f = Inr s"
    and "list_all (\<lambda>u. sint (ID u) < MaxInt64) (stored_records f)"
  shows "below_counter s \<and> elems (todos s) = stored_records f \<and> 1 \<le> sint (nextID s)"
proof (cases f)
  case (Records ts)
  with assms(2) have "list_all (\<lambda>u. sint (ID u) < MaxInt64) ts"
    by (simp add: stored_records_def)
  from fold_advance_mono [OF this, of 1] Records assms(1) show ?thesis
    by (auto simp: main_file_Records below_counter_def elems_def stored_records_def)
qed (use assms(1) in \<open>auto simp: main_file_def loadTodosFromFile_def init_fstate_def
      below_counter_def elems_def stored_records_def\<close>)

text \<open>
  C8, as the claim states it, fails in the file-backed variant: the list is the slice as
  it is, and a file whose records are not in ascending order is listed in the order of
  the file.
\<close>

theorem list_file_order_counterexample:
  "main_file (Records [\<lparr>ID = 2, Title = ''b'', Done = False\<rparr>, \<lparr>ID = 1, Title = ''a'', Done = False\<rparr>])
     = Inr \<lparr>todos = Some [\<lparr>ID = 2, Title = ''b'', Done = False\<rparr>,
                          \<lparr>ID = 1, Title = ''a'', Done = False\<rparr>], nextID = 3\<rparr>
   \<and> router_file \<lparr>todos = Some [\<lparr>ID = 2, Title = ''b'', Done = False\<rparr>,
                          \<lparr>ID = 1, Title = ''a'', Done = False\<rparr>], nextID = 3\<rparr>
        \<lparr>Method = ''GET'', Path = ''/todos'', Body = None\<rparr>
     = (\<lparr>todos = Some [\<lparr>ID = 2, Title = ''b'', Done = False\<rparr>,
                          \<lparr>ID = 1, Title = ''a'', Done = False\<rparr>], nextID = 3\<rparr>,
        \<lparr>status = 200, payload = JsonTodos [\<lparr>ID = 2, Title = ''b'', Done = False\<rparr>,
                          \<lparr>ID = 1, Title = ''a'', Done = False\<rparr>]\<rparr>)
   \<and> \<not> ascending [\<lparr>ID = 2, Title = ''b'', Done = False\<rparr>, \<lparr>ID = 1, Title = ''a'', Done = False\<rparr>]"
  by (simp add: file_eval Encode_todos_def ascending_def)

text \<open>
  C8, amended. Relational, the query going through and the ids of the table distinct
  (the primary key): the list holds exactly the rows of the table, in strictly ascending
  order of id. File-backed: the list is the slice; it is in strictly ascending order of
  id after every run that starts from a loaded file which was itself in strictly
  ascending order (or absent) with ids below \<open>MaxInt64\<close>, as long as the creates of
  the run do not take the counter beyond \<open>MaxInt64\<close>.
\<close>

theorem list_in_ascending_order:
  "(distinct (map ID (table d)) \<longrightarrow>
      (\<exists>sl. getTodos_db True d = Encode_todos sl \<and> mset (elems sl) = mset (table d)
            \<and> ascending (elems sl)))
   \<and> (main_file f = Inr s0 \<and> ascending (stored_records f)
        \<and> list_all (\<lambda>u. sint (ID u) < MaxInt64) (stored_records f)
        \<and> sint (nextID s0) + int (length (filter is_create rs)) \<le> MaxInt64
        \<and> serve_file s0 rs = (s, as) \<longrightarrow>
      getTodos_file s = Encode_todos (todos s) \<and> ascending (elems (todos s)))"
proof (intro conjI impI)
  assume "distinct (map ID (table d))"
  then show "\<exists>sl. getTodos_db True d = Encode_todos sl \<and> mset (elems sl) = mset (table d)
            \<and> ascending (elems sl)"
    by (rule getTodos_db_sorted)
next
  show "getTodos_file s = Encode_todos (todos s)" by (simp add: getTodos_file_def)
next
  assume h: "main_file f = Inr s0 \<and> ascending (stored_records f)
        \<and> list_all (\<lambda>u. sint (ID u) < MaxInt64) (stored_records f)
        \<and> sint (nextID s0) + int (length (filter is_create rs)) \<le> MaxInt64
        \<and> serve_file s0 rs = (s, as)"
  then have "below_counter s0" "ascending (elems (todos s0))"
    using main_file_inv [of f s0] by simp_all
  moreover from h have "sint (nextID s0) + int (length (filter is_create rs)) \<le> MaxInt64"
    by simp
  note serve_file_inv [OF this]
  ultimately show "ascending (elems (todos s))" using h by simp
qed

theorem list_in_ascending_order_witness:
  "distinct (map ID (table \<lparr>table = [\<lparr>ID = 2, Title = ''b'', Done = False\<rparr>,
                                     \<lparr>ID = 1, Title = ''a'', Done = False\<rparr>], serial = 3\<rparr>))
   \<and> getTodos_db True \<lparr>table = [\<lparr>ID = 2, Title = ''b'', Done = False\<rparr>,
                                \<lparr>ID = 1, Title = ''a'', Done = False\<rparr>], serial = 3\<rparr>
      = Encode_todos (Some [\<lparr>ID = 1, Title = ''a'', Done = False\<rparr>,
                            \<lparr>ID = 2, Title = ''b'', Done = False\<rparr>])
   \<and> main_file (Records [\<lparr>ID = 1, Title = ''a'', Done = False\<rparr>,
                          \<lparr>ID = 4, Title = ''b'', Done = False\<rparr>])
      = Inr \<lparr>todos = Some [\<lparr>ID = 1, Title = ''a'', Done = False\<rparr>,
                           \<lparr>ID = 4, Title = ''b'', Done = False\<rparr>], nextID = 5\<rparr>
   \<and> ascending (stored_records (Records [\<lparr>ID = 1, Title = ''a'', Done = False\<rparr>,
                                          \<lparr>ID = 4, Title = ''b'', Done = False\<rparr>]))
   \<and> list_all (\<lambda>u. sint (ID u) < MaxInt64)
        (stored_records (Records [\<lparr>ID = 1, Title = ''a'', Done = False\<rparr>,
                                  \<lparr>ID = 4, Title = ''b'', Done = False\<rparr>]))
   \<and> sint (5 :: go_int)
       + int (length (filter is_create
           [\<lparr>Method = ''DELETE'', Path = ''/todos/1'', Body = None\<rparr>,
            \<lparr>Method = ''POST'', Path = ''/todos'', Body = Some \<lparr>ID = 0, Title = ''c'', Done = False\<rparr>\<rparr>]))
       \<le> MaxInt64
   \<and> serve_file \<lparr>todos = Some [\<lparr>ID = 1, Title = ''a'', Done = False\<rparr>,
                                \<lparr>ID = 4, Title = ''b'', Done = False\<rparr>], nextID = 5\<rparr>
        [\<lparr>Method = ''DELETE'', Path = ''/todos/1'', Body = None\<rparr>,
         \<lparr>Method = ''POST'', Path = ''/todos'', Body = Some \<lparr>ID = 0, Title = ''c'', Done = False\<rparr>\<rparr>]
      = (\<lparr>todos = Some [\<lparr>ID = 4, Title = ''b'', Done = False\<rparr>,
                        \<lparr>ID = 5, Title = ''c'', Done = False\<rparr>], nextID = 6\<rparr>,
         [\<lparr>status = 204, payload = NoBody\<rparr>,
          \<lparr>status = 201, payload = JsonTodo \<lparr>ID = 5, Title = ''c'', Done = False\<rparr>\<rparr>])
   \<and> getTodos_file \<lparr>todos = Some [\<lparr>ID = 4, Title = ''b'', Done = False\<rparr>,
                        \<lparr>ID = 5, Title = ''c'', Done = False\<rparr>], nextID = 6\<rparr>
      = Encode_todos (Some [\<lparr>ID = 4, Title = ''b'', Done = False\<rparr>,
                            \<lparr>ID = 5, Title = ''c'', Done = False\<rparr>])
   \<and> ascending [\<lparr>ID = 4, Title = ''b'', Done = False\<rparr>, \<lparr>ID = 5, Title = ''c'', Done = False\<rparr>]"
proof -
  let ?d = "\<lparr>table = [\<lparr>ID = 2, Title = ''b'', Done = False\<rparr>,
                      \<lparr>ID = 1, Title = ''a'', Done = False\<rparr>], serial = 3\<rparr>"
  let ?f = "Records [\<lparr>ID = 1, Title = ''a'', Done = False\<rparr>, \<lparr>ID = 4, Title = ''b'', Done = False\<rparr>]"
  let ?start = "\<lparr>todos = Some [\<lparr>ID = 1, Title = ''a'', Done = False\<rparr>,
                           \<lparr>ID = 4, Title = ''b'', Done = False\<rparr>], nextID = 5\<rparr>"
  let ?rs = "[\<lparr>Method = ''DELETE'', Path = ''/todos/1'', Body = None\<rparr>,
         \<lparr>Method = ''POST'', Path = ''/todos'', Body = Some \<lparr>ID = 0, Title = ''c'', Done = False\<rparr>\<rparr>]"
  let ?s = "\<lparr>todos = Some [\<lparr>ID = 4, Title = ''b'', Done = False\<rparr>,
                        \<lparr>ID = 5, Title = ''c'', Done = False\<rparr>], nextID = 6\<rparr>"
  let ?as = "[\<lparr>status = 204, payload = NoBody\<rparr>,
          \<lparr>status = 201, payload = JsonTodo \<lparr>ID = 5, Title = ''c'', Done = False\<rparr>\<rparr>]"
  have h1: "distinct (map ID (table ?d))" by simp
  have h2: "main_file ?f = Inr ?start" by (simp add: file_eval)
  have h3: "ascending (stored_records ?f)" by (simp add: stored_records_def ascending_def)
  have h4: "list_all (\<lambda>u. sint (ID u) < MaxInt64) (stored_records ?f)"
    by (simp add: stored_records_def MaxInt64_def)
  have h5: "sint (nextID ?start) + int (length (filter is_create ?rs)) \<le> MaxInt64"
    by (simp add: is_create_def MaxInt64_def)
  have h6: "serve_file ?start ?rs = (?s, ?as)"
    by (simp add: file_eval deleteTodo_file_def string_defs)
  have db: "getTodos_db True ?d
      = Encode_todos (Some [\<lparr>ID = 1, Title = ''a'', Done = False\<rparr>,
                            \<lparr>ID = 2, Title = ''b'', Done = False\<rparr>])"
    by (simp add: getTodos_db_def sql_select_all_def append_slice_def elems_def)
  from list_in_ascending_order [of ?d ?f ?start ?rs ?s ?as] h1 h2 h3 h4 h5 h6 db
  show ?thesis by (simp add: elems_def)
qed

section \<open>Create, then get\<close>

lemma find_appended:
  "i \<notin> set (map ID ts) \<Longrightarrow> ID c = i \<Longrightarrow> find (\<lambda>t. ID t = i) (ts @ [c]) = Some c"
  by (induction ts) auto

lemma below_counter_fresh: "below_counter s \<Longrightarrow> nextID s \<notin> set (map ID (elems (todos s)))"
  by (auto simp: below_counter_def list_all_iff)

text \<open>
  C9, as the claim states it, fails when the dataset already holds a record with the
  counter's value: \<open>getTodo\<close> returns the first record with the id. After loading a
  file that holds the ids \<open>- 2\<^sup>6\<^sup>3\<close> and \<open>2\<^sup>6\<^sup>3 - 1\<close> the counter has wrapped to
  \<open>- 2\<^sup>6\<^sup>3\<close>; the created record gets that id, and the get that follows returns
  the old record.
\<close>

theorem create_then_get_counterexample:
  "main_file (Records [\<lparr>ID = - 9223372036854775808, Title = ''old'', Done = True\<rparr>,
                       \<lparr>ID = 9223372036854775807, Title = ''m'', Done = False\<rparr>])
     = Inr \<lparr>todos = Some [\<lparr>ID = - 9223372036854775808, Title = ''old'', Done = True\<rparr>,
                          \<lparr>ID = 9223372036854775807, Title = ''m'', Done = False\<rparr>],
            nextID = - 9223372036854775808\<rparr>
   \<and> serve_file
        \<lparr>todos = Some [\<lparr>ID = - 9223372036854775808, Title = ''old'', Done = True\<rparr>,
                       \<lparr>ID = 9223372036854775807, Title = ''m'', Done = False\<rparr>],
         nextID = - 9223372036854775808\<rparr>
        [\<lparr>Method = ''POST'', Path = ''/todos'', Body = Some \<lparr>ID = 0, Title = ''x'', Done = False\<rparr>\<rparr>,
         \<lparr>Method = ''GET'', Path = ''/todos/-9223372036854775808'', Body = None\<rparr>]
     = (\<lparr>todos = Some [\<lparr>ID = - 9223372036854775808, Title = ''old'', Done = True\<rparr>,
                       \<lparr>ID = 9223372036854775807, Title = ''m'', Done = False\<rparr>,
                       \<lparr>ID = - 9223372036854775808, Title = ''x'', Done = False\<rparr>],
         nextID = - 9223372036854775807\<rparr>,
        [\<lparr>status = 201, payload = JsonTodo \<lparr>ID = - 9223372036854775808, Title = ''x'', Done = False\<rparr>\<rparr>,
         \<lparr>status = 200, payload = JsonTodo \<lparr>ID = - 9223372036854775808, Title = ''old'', Done = True\<rparr>\<rparr>])"
  by (simp add: file_eval string_defs Encode_todo_def)

text \<open>
  C9, amended. When no record of the dataset carries the counter's value (as is the case
  whenever the counter is above every id of the dataset), a create answers 201 with a
  record that has the title and done of the request, and a get of any path whose
  segment parses to the id of that record, the path with the decimal numeral of the id
  among them, answers 200 with the same record.
\<close>

theorem create_then_get:
  assumes "nextID s \<notin> set (map ID (elems (todos s)))"
    and "router_file s \<lparr>Method = ''POST'', Path = ''/todos'', Body = Some t\<rparr> = (s', a)"
  shows "\<exists>c. a = \<lparr>status = 201, payload = JsonTodo c\<rparr> \<and> Title c = Title t \<and> Done c = Done t
           \<and> (\<forall>p b. HasPrefix p ''/todos/'' \<and> Atoi (TrimPrefix p ''/todos/'') = Some (ID c)
                 \<longrightarrow> router_file s' \<lparr>Method = ''GET'', Path = p, Body = b\<rparr>
                       = (s', \<lparr>status = 200, payload = JsonTodo c\<rparr>))
           \<and> router_file s' \<lparr>Method = ''GET'', Path = ''/todos/'' @ Itoa (ID c), Body = None\<rparr>
                = (s', \<lparr>status = 200, payload = JsonTodo c\<rparr>)"
proof -
  let ?c = "t\<lparr>ID := nextID s\<rparr>"
  from assms(2) have s': "s' = s\<lparr>nextID := nextID s + 1, todos := Some (elems (todos s) @ [?c])\<rparr>"
    and a: "a = \<lparr>status = 201, payload = JsonTodo ?c\<rparr>"
    by (auto simp: router_file_def createTodo_file_def saveTodosToFile_def append_slice_def Let_def)
  have "router_file s' \<lparr>Method = ''GET'', Path = p, Body = b\<rparr>
          = (s', \<lparr>status = 200, payload = JsonTodo ?c\<rparr>)"
    if p: "HasPrefix p ''/todos/''" "Atoi (TrimPrefix p ''/todos/'') = Some (ID ?c)" for p b
  proof -
    from p(1) have "p \<noteq> ''/todos''" by (auto simp: HasPrefix_def)
    moreover from assms(1) have "find (\<lambda>u. ID u = nextID s) (elems (todos s')) = Some ?c"
      by (simp add: s' elems_Some find_appended)
    ultimately show ?thesis using p
      by (simp add: router_file_def getTodo_def Encode_todo_def)
  qed
  note get = this
  from get [OF HasPrefix_todo_path Atoi_todo_path, where b = None]
  have "router_file s' \<lparr>Method = ''GET'', Path = ''/todos/'' @ Itoa (ID ?c), Body = None\<rparr>
          = (s', \<lparr>status = 200, payload = JsonTodo ?c\<rparr>)" .
  with a get show ?thesis by (intro exI [of _ ?c]) simp
qed

theorem create_then_get_witness:
  "nextID \<lparr>todos = Some [\<lparr>ID = 1, Title = ''a'', Done = False\<rparr>], nextID = 2\<rparr>
     \<notin> set (map ID (elems (todos \<lparr>todos = Some [\<lparr>ID = 1, Title = ''a'', Done = False\<rparr>], nextID = 2\<rparr>)))
   \<and> router_file \<lparr>todos = Some [\<lparr>ID = 1, Title = ''a'', Done = False\<rparr>], nextID = 2\<rparr>
        \<lparr>Method = ''POST'', Path = ''/todos'', Body = Some \<lparr>ID = 0, Title = ''x'', Done = False\<rparr>\<rparr>
      = (\<lparr>todos = Some [\<lparr>ID = 1, Title = ''a'', Done = False\<rparr>,
                        \<lparr>ID = 2, Title = ''x'', Done = False\<rparr>], nextID = 3\<rparr>,
         \<lparr>status = 201, payload = JsonTodo \<lparr>ID = 2, Title = ''x'', Done = False\<rparr>\<rparr>)
   \<and> HasPrefix ''/todos/2'' ''/todos/''
   \<and> Atoi (TrimPrefix ''/todos/2'' ''/todos/'') = Some 2
   \<and> router_file \<lparr>todos = Some [\<lparr>ID = 1, Title = ''a'', Done = False\<rparr>,
                        \<lparr>ID = 2, Title = ''x'', Done = False\<rparr>], nextID = 3\<rparr>
        \<lparr>Method = ''GET'', Path = ''/todos/2'', Body = None\<rparr>
      = (\<lparr>todos = Some [\<lparr>ID = 1, Title = ''a'', Done = False\<rparr>,
                        \<lparr>ID = 2, Title = ''x'', Done = False\<rparr>], nextID = 3\<rparr>,
         \<lparr>status = 200, payload = JsonTodo \<lparr>ID = 2, Title = ''x'', Done = False\<rparr>\<rparr>)"
proof -
  let ?s = "\<lparr>todos = Some [\<lparr>ID = 1, Title = ''a'', Done = False\<rparr>], nextID = 2\<rparr>"
  let ?t = "\<lparr>ID = 0, Title = ''x'', Done = False\<rparr>"
  let ?s' = "\<lparr>todos = Some [\<lparr>ID = 1, Title = ''a'', Done = False\<rparr>,
                        \<lparr>ID = 2, Title = ''x'', Done = False\<rparr>], nextID = 3\<rparr>"
  let ?a = "\<lparr>status = 201, payload = JsonTodo \<lparr>ID = 2, Title = ''x'', Done = False\<rparr>\<rparr>"
  have h1: "nextID ?s \<notin> set (map ID (elems (todos ?s)))" by (simp add: elems_def)
  have h2: "router_file ?s \<lparr>Method = ''POST'', Path = ''/todos'', Body = Some ?t\<rparr> = (?s', ?a)"
    by (simp add: file_eval)
  have h3: "HasPrefix ''/todos/2'' ''/todos/''" by (simp add: string_defs)
  have h4: "Atoi (TrimPrefix ''/todos/2'' ''/todos/'') = Some 2" by (simp add: string_defs)
  from create_then_get [OF h1 h2] h1 h2 h3 h4 show ?thesis by auto
qed

end
